theory Spec2Isabelle
  imports Main "HOL-Library.Multiset"
begin

section \<open>The documents of the catalog\<close>

text \<open>
  The service (\<^verbatim>\<open>ProductService\<close>, \<^verbatim>\<open>lib/product-service.ts\<close>) works on three
  MongoDB collections: \<^verbatim>\<open>products\<close>, \<^verbatim>\<open>categories\<close> and \<^verbatim>\<open>subcategories\<close>.
  A date is the number of milliseconds since the epoch; every \<^verbatim>\<open>new Date()\<close> of the
  source is an argument of the modelled operation, in the order the source reads the clock.
\<close>

text \<open>
  Modelled from the spec: the values of \<^verbatim>\<open>status\<close> (the declaration is in
  \<^verbatim>\<open>types/product\<close>). The service writes only \<^verbatim>\<open>'active'\<close>; the specification names
  one more value, inactive.
\<close>

datatype Status = Active | Inactive

text \<open>
  The type \<^verbatim>\<open>Product\<close>. The store's key \<^verbatim>\<open>_id\<close> is the field \<open>p_id\<close>; the other
  fields are those \<^verbatim>\<open>createProduct\<close> writes, under the source's names.
\<close>

record Product =
  p_id :: string
  product_id :: string
  product_name :: string
  product_title :: string
  product_description :: string
  image_urls :: "string list"
  image_count :: int
  subcategory_id :: string
  category_id :: string
  status :: Status
  created_at :: int
  updated_at :: int

text \<open>
  The fields of \<^verbatim>\<open>ProductFormData\<close> that \<^verbatim>\<open>createProduct\<close> reads (the
  \<^verbatim>\<open>images\<close> of the form are not used by the service).
\<close>

record ProductFormData =
  f_product_name :: string
  f_product_title :: string
  f_product_description :: string
  f_category_id :: string
  f_subcategory_id :: string

text \<open>
  \<^verbatim>\<open>Partial<Product>\<close>, the argument of \<^verbatim>\<open>updateProduct\<close>: every field of
  \<^verbatim>\<open>Product\<close> may be absent or supplied, the key \<^verbatim>\<open>_id\<close> (the field \<open>u_id\<close>)
  included.
\<close>

record ProductUpdate =
  u_id :: "string option"
  u_product_id :: "string option"
  u_product_name :: "string option"
  u_product_title :: "string option"
  u_product_description :: "string option"
  u_image_urls :: "string list option"
  u_image_count :: "int option"
  u_subcategory_id :: "string option"
  u_category_id :: "string option"
  u_status :: "Status option"
  u_created_at :: "int option"
  u_updated_at :: "int option"

text \<open>
  Modelled from the spec: the declarations of \<^verbatim>\<open>Category\<close> and \<^verbatim>\<open>Subcategory\<close>
  (\<^verbatim>\<open>types/product\<close>). A category has an identifier, a name, the list of its
  products' identifiers, their count and an updated timestamp; a subcategory has the same
  fields and the identifier of its owning category. The count is a number that
  \<^verbatim>\<open>$inc\<close> moves by \<open>1\<close> or \<open>-1\<close>, so it is an integer that can become negative.
\<close>

record Category =
  c_id :: string
  c_name :: string
  product_ids :: "string list"
  product_count :: int
  c_updated_at :: int

record Subcategory = Category +
  s_category_id :: string

record db =
  products :: "Product list"
  categories :: "Category list"
  subcategories :: "Subcategory list"

text \<open>
  The exceptions of the store that the service can meet: a failed \<^verbatim>\<open>$toInt\<close>, a second
  document with the same key, and an update that would change the key of a document. An
  operation that ends in an exception returns the error alone; at each place where the
  modelled operations raise one, nothing has been written yet, so the store stays the
  argument.
\<close>

datatype error = ConversionFailure | DuplicateKey | ImmutableField

section \<open>The operations of the store\<close>

text \<open>
  A collection is the list of its documents in insertion order. \<^verbatim>\<open>findOne\<close>,
  \<^verbatim>\<open>updateOne\<close> and \<^verbatim>\<open>deleteOne\<close> act on the first document that matches the
  filter and do nothing when none matches (no operation of the service is an upsert).
\<close>

fun findOne :: "('d \<Rightarrow> bool) \<Rightarrow> 'd list \<Rightarrow> 'd option" where
  "findOne flt [] = None"
| "findOne flt (d # ds) = (if flt d then Some d else findOne flt ds)"

fun updateOne :: "('d \<Rightarrow> bool) \<Rightarrow> ('d \<Rightarrow> 'd) \<Rightarrow> 'd list \<Rightarrow> 'd list" where
  "updateOne flt upd [] = []"
| "updateOne flt upd (d # ds) = (if flt d then upd d # ds else d # updateOne flt upd ds)"

fun deleteOne :: "('d \<Rightarrow> bool) \<Rightarrow> 'd list \<Rightarrow> 'd list" where
  "deleteOne flt [] = []"
| "deleteOne flt (d # ds) = (if flt d then ds else d # deleteOne flt ds)"

text \<open>\<^verbatim>\<open>insertOne\<close> on \<^verbatim>\<open>products\<close>: the key \<^verbatim>\<open>_id\<close> is unique in a collection.\<close>

definition insertOne :: "Product \<Rightarrow> Product list \<Rightarrow> error + Product list" where
  "insertOne p ps =
     (if p_id p \<in> set (map p_id ps) then Inl DuplicateKey else Inr (ps @ [p]))"

text \<open>
  The update documents of the service. \<^verbatim>\<open>$push\<close> appends one element, \<^verbatim>\<open>$pull\<close>
  removes every element equal to the value, \<^verbatim>\<open>$inc\<close> adds to the number.
\<close>

definition push_product :: "string \<Rightarrow> int \<Rightarrow> 'a Category_scheme \<Rightarrow> 'a Category_scheme" where
  "push_product pid now c =
     c\<lparr>product_ids := product_ids c @ [pid],
       product_count := product_count c + 1,
       c_updated_at := now\<rparr>"

definition pull_product :: "string \<Rightarrow> int \<Rightarrow> 'a Category_scheme \<Rightarrow> 'a Category_scheme" where
  "pull_product pid now c =
     c\<lparr>product_ids := removeAll pid (product_ids c),
       product_count := product_count c - 1,
       c_updated_at := now\<rparr>"

section \<open>Numbers and strings\<close>

text \<open>
  \<^verbatim>\<open>Number.prototype.toString\<close> on an integer (the numbers of this service stay far
  below \<open>10^21\<close>, where JavaScript changes to the exponent form), and
  \<^verbatim>\<open>String.prototype.padStart\<close> with a pad string of one character.
\<close>

definition digit_char :: "nat \<Rightarrow> char" where
  "digit_char d = ''0123456789'' ! d"

fun showNat :: "nat \<Rightarrow> string" where
  "showNat n = (if n < 10 then [digit_char n] else showNat (n div 10) @ [digit_char (n mod 10)])"

declare showNat.simps [simp del]

definition toString :: "int \<Rightarrow> string" where
  "toString n = (if n < 0 then CHR ''-'' # showNat (nat (- n)) else showNat (nat n))"

definition padStart :: "nat \<Rightarrow> char \<Rightarrow> string \<Rightarrow> string" where
  "padStart n c s = replicate (n - length s) c @ s"

text \<open>
  MongoDB's \<^verbatim>\<open>$toInt\<close> on a string: an optional sign and a non-empty run of decimal
  digits, whose value fits a signed 32-bit integer; every other string, and a value out of
  that range, fails the conversion (and with it the whole aggregation).
\<close>

definition is_digit :: "char \<Rightarrow> bool" where
  "is_digit c = (c \<in> set ''0123456789'')"

definition digit_val :: "char \<Rightarrow> nat" where
  "digit_val c = of_char c - 48"

definition decimal_value :: "string \<Rightarrow> nat" where
  "decimal_value s = foldl (\<lambda>acc c. 10 * acc + digit_val c) 0 s"

definition all_digits :: "string \<Rightarrow> bool" where
  "all_digits s = (s \<noteq> [] \<and> list_all is_digit s)"

definition int32 :: "int \<Rightarrow> error + int" where
  "int32 v = (if - 2147483648 \<le> v \<and> v \<le> 2147483647 then Inr v else Inl ConversionFailure)"

definition toInt :: "string \<Rightarrow> error + int" where
  "toInt s =
     (case s of
        [] \<Rightarrow> Inl ConversionFailure
      | c # cs \<Rightarrow>
          if c = CHR ''-'' then
            (if all_digits cs then int32 (- int (decimal_value cs)) else Inl ConversionFailure)
          else if c = CHR ''+'' then
            (if all_digits cs then int32 (int (decimal_value cs)) else Inl ConversionFailure)
          else
            (if all_digits s then int32 (int (decimal_value s)) else Inl ConversionFailure))"

section \<open>The service\<close>

subsection \<open>getNextProductId\<close>

text \<open>
  The aggregation pipeline: \<^verbatim>\<open>$match\<close> keeps the documents whose key starts with
  \<^verbatim>\<open>prod_\<close> (the regular expression \<^verbatim>\<open>^prod_\<close>); \<^verbatim>\<open>$project\<close> converts what
  follows the fifth byte of the key with \<^verbatim>\<open>$toInt\<close>; \<^verbatim>\<open>$sort\<close> orders the numbers
  descending and \<^verbatim>\<open>$limit\<close> keeps the first.
\<close>

definition match_prod :: "string \<Rightarrow> bool" where
  "match_prod s = (take 5 s = ''prod_'')"

fun project_numeric :: "string list \<Rightarrow> error + int list" where
  "project_numeric [] = Inr []"
| "project_numeric (k # ks) =
     (case toInt (drop 5 k) of
        Inl e \<Rightarrow> Inl e
      | Inr n \<Rightarrow> (case project_numeric ks of Inl e \<Rightarrow> Inl e | Inr ns \<Rightarrow> Inr (n # ns)))"

definition aggregate_pipeline :: "Product list \<Rightarrow> error + int list" where
  "aggregate_pipeline ps =
     (case project_numeric (filter match_prod (map p_id ps)) of
        Inl e \<Rightarrow> Inl e
      | Inr ns \<Rightarrow> Inr (take 1 (sort_key uminus ns)))"

definition formatProductId :: "int \<Rightarrow> string" where
  "formatProductId nextNum = ''prod_'' @ padStart 4 CHR ''0'' (toString nextNum)"

definition getNextProductId :: "db \<Rightarrow> error + string" where
  "getNextProductId d =
     (case aggregate_pipeline (products d) of
        Inl e \<Rightarrow> Inl e
      | Inr result \<Rightarrow>
          Inr (formatProductId (case result of [] \<Rightarrow> 1 | numeric_part # _ \<Rightarrow> numeric_part + 1)))"

subsection \<open>Reading\<close>

definition getProductById :: "db \<Rightarrow> string \<Rightarrow> Product option" where
  "getProductById d productId = findOne (\<lambda>p. p_id p = productId) (products d)"

text \<open>
  \<^verbatim>\<open>find({}).sort({ created_at: -1 })\<close>: the store promises no order among documents
  with equal dates; the model keeps their insertion order.
\<close>

definition getAllProducts :: "db \<Rightarrow> Product list" where
  "getAllProducts d = sort_key (\<lambda>p. - created_at p) (products d)"

subsection \<open>createProduct\<close>

text \<open>
  The clock is read four times: for \<^verbatim>\<open>created_at\<close>, for \<^verbatim>\<open>updated_at\<close>, and once in
  each parent's update. An exception of the allocation or of the insertion leaves the
  function before any later write.
\<close>

definition createProduct ::
  "db \<Rightarrow> ProductFormData \<Rightarrow> string list \<Rightarrow> int \<Rightarrow> int \<Rightarrow> int \<Rightarrow> int \<Rightarrow> error + (db \<times> Product)" where
  "createProduct d productData imageUrls t_created t_updated t_cat t_sub =
     (case getNextProductId d of
        Inl e \<Rightarrow> Inl e
      | Inr productId \<Rightarrow>
          let product = \<lparr>p_id = productId,
                product_id = productId,
                product_name = f_product_name productData,
                product_title = f_product_title productData,
                product_description = f_product_description productData,
                image_urls = imageUrls,
                image_count = int (length imageUrls),
                subcategory_id = f_subcategory_id productData,
                category_id = f_category_id productData,
                status = Active,
                created_at = t_created,
                updated_at = t_updated\<rparr>
          in (case insertOne product (products d) of
                Inl e \<Rightarrow> Inl e
              | Inr ps \<Rightarrow>
                  Inr (d\<lparr>products := ps,
                         categories :=
                           updateOne (\<lambda>c. c_id c = f_category_id productData)
                             (push_product productId t_cat) (categories d),
                         subcategories :=
                           updateOne (\<lambda>s. c_id s = f_subcategory_id productData)
                             (push_product productId t_sub) (subcategories d)\<rparr>,
                       product)))"

subsection \<open>updateProduct\<close>

text \<open>
  \<^verbatim>\<open>$set: { ...updateData, updated_at: new Date() }\<close>: every supplied field replaces
  the stored one; \<^verbatim>\<open>updated_at\<close> comes last in the object and so always is the clock's.
\<close>

definition set_fields :: "ProductUpdate \<Rightarrow> int \<Rightarrow> Product \<Rightarrow> Product" where
  "set_fields updateData now p =
     p\<lparr>p_id := (case u_id updateData of Some v \<Rightarrow> v | None \<Rightarrow> p_id p),
       product_id := (case u_product_id updateData of Some v \<Rightarrow> v | None \<Rightarrow> product_id p),
       product_name := (case u_product_name updateData of Some v \<Rightarrow> v | None \<Rightarrow> product_name p),
       product_title := (case u_product_title updateData of Some v \<Rightarrow> v | None \<Rightarrow> product_title p),
       product_description :=
         (case u_product_description updateData of Some v \<Rightarrow> v | None \<Rightarrow> product_description p),
       image_urls := (case u_image_urls updateData of Some v \<Rightarrow> v | None \<Rightarrow> image_urls p),
       image_count := (case u_image_count updateData of Some v \<Rightarrow> v | None \<Rightarrow> image_count p),
       subcategory_id :=
         (case u_subcategory_id updateData of Some v \<Rightarrow> v | None \<Rightarrow> subcategory_id p),
       category_id := (case u_category_id updateData of Some v \<Rightarrow> v | None \<Rightarrow> category_id p),
       status := (case u_status updateData of Some v \<Rightarrow> v | None \<Rightarrow> status p),
       created_at := (case u_created_at updateData of Some v \<Rightarrow> v | None \<Rightarrow> created_at p),
       updated_at := now\<rparr>"

text \<open>
  The key of a document is immutable in the store: a \<^verbatim>\<open>$set\<close> that names \<^verbatim>\<open>_id\<close> with
  a value other than the key of the matched document makes \<^verbatim>\<open>updateOne\<close> throw, and
  no field is written; a \<^verbatim>\<open>$set\<close> that names it with the same value is accepted. When
  no document matches the filter, nothing is compared and nothing is written.
\<close>

definition changes_key :: "ProductUpdate \<Rightarrow> Product \<Rightarrow> bool" where
  "changes_key updateData p = (case u_id updateData of None \<Rightarrow> False | Some k \<Rightarrow> k \<noteq> p_id p)"

definition updateProduct :: "db \<Rightarrow> string \<Rightarrow> ProductUpdate \<Rightarrow> int \<Rightarrow> error + db" where
  "updateProduct d productId updateData now =
     (if (case findOne (\<lambda>p. p_id p = productId) (products d) of
            None \<Rightarrow> False
          | Some p \<Rightarrow> changes_key updateData p)
      then Inl ImmutableField
      else Inr (d\<lparr>products :=
                   updateOne (\<lambda>p. p_id p = productId) (set_fields updateData now) (products d)\<rparr>))"

subsection \<open>deleteProduct\<close>

definition deleteProduct :: "db \<Rightarrow> string \<Rightarrow> int \<Rightarrow> int \<Rightarrow> db" where
  "deleteProduct d productId t_cat t_sub =
     (case getProductById d productId of
        None \<Rightarrow> d
      | Some product \<Rightarrow>
          d\<lparr>products := deleteOne (\<lambda>p. p_id p = productId) (products d),
            categories :=
              updateOne (\<lambda>c. c_id c = category_id product)
                (pull_product productId t_cat) (categories d),
            subcategories :=
              updateOne (\<lambda>s. c_id s = subcategory_id product)
                (pull_product productId t_sub) (subcategories d)\<rparr>)"

section \<open>Serial callers\<close>

text \<open>
  A caller that issues \<^verbatim>\<open>createProduct\<close> serially: every call completes before the next
  begins, and the first exception ends the sequence. A call is the form data, the image URLs
  and the four clock readings of \<^verbatim>\<open>createProduct\<close>.
\<close>

type_synonym create_call = "ProductFormData \<times> string list \<times> int \<times> int \<times> int \<times> int"

fun createProducts :: "db \<Rightarrow> create_call list \<Rightarrow> error + (db \<times> Product list)" where
  "createProducts d [] = Inr (d, [])"
| "createProducts d ((productData, imageUrls, t1, t2, t3, t4) # calls) =
     (case createProduct d productData imageUrls t1 t2 t3 t4 of
        Inl e \<Rightarrow> Inl e
      | Inr (d', p) \<Rightarrow>
          (case createProducts d' calls of
             Inl e \<Rightarrow> Inl e
           | Inr (d'', ps) \<Rightarrow> Inr (d'', p # ps)))"

text \<open>
  The identifiers formatted from the numbers \<open>k + 1\<close>, ..., \<open>k + n\<close>.
\<close>

definition serial_ids :: "nat \<Rightarrow> nat \<Rightarrow> string list" where
  "serial_ids k n = map (\<lambda>j. formatProductId (int j)) [Suc k..<Suc (k + n)]"

section \<open>The allocator as the specification words it\<close>

text \<open>
  The specification's \<^verbatim>\<open>allocate_next_product_id\<close>, written from its words and not from
  the code: among the identifiers that match \<^verbatim>\<open>prod_<digits>\<close>, take the numeric suffixes,
  their maximum (0 if there is none), add 1 and format the number zero-padded to four digits
  after \<^verbatim>\<open>prod_\<close>.
\<close>

definition matches_prod_digits :: "string \<Rightarrow> bool" where
  "matches_prod_digits s = (take 5 s = ''prod_'' \<and> all_digits (drop 5 s))"

definition spec_allocate_next_product_id :: "string list \<Rightarrow> string" where
  "spec_allocate_next_product_id ids =
     (let suffixes = map (\<lambda>i. decimal_value (drop 5 i)) (filter matches_prod_digits ids);
          n = fold max suffixes 0 + 1
      in ''prod_'' @ replicate (4 - length (showNat n)) CHR ''0'' @ showNat n)"

section \<open>The scenario of the specification\<close>

text \<open>
  An empty category \<open>C1\<close>, an empty subcategory \<open>S1\<close> under it and no product; the
  product ``Widget'' with the images \<open>u1\<close> and \<open>u2\<close> is created in it.
\<close>

definition scenario_catalog :: db where
  "scenario_catalog =
     \<lparr>products = [],
      categories =
        [\<lparr>c_id = ''C1'', c_name = ''Tools'', product_ids = [], product_count = 0,
          c_updated_at = 0\<rparr>],
      subcategories =
        [\<lparr>c_id = ''S1'', c_name = ''Hand tools'', product_ids = [], product_count = 0,
          c_updated_at = 0, s_category_id = ''C1''\<rparr>]\<rparr>"

definition widget_form :: ProductFormData where
  "widget_form =
     \<lparr>f_product_name = ''Widget'', f_product_title = ''A widget'',
      f_product_description = ''A small widget'', f_category_id = ''C1'',
      f_subcategory_id = ''S1''\<rparr>"

definition widget :: Product where
  "widget =
     \<lparr>p_id = ''prod_0001'', product_id = ''prod_0001'', product_name = ''Widget'',
      product_title = ''A widget'', product_description = ''A small widget'',
      image_urls = [''u1'', ''u2''], image_count = 2, subcategory_id = ''S1'',
      category_id = ''C1'', status = Active, created_at = 100, updated_at = 101\<rparr>"

definition widget_catalog :: db where
  "widget_catalog =
     \<lparr>products = [widget],
      categories =
        [\<lparr>c_id = ''C1'', c_name = ''Tools'', product_ids = [''prod_0001''], product_count = 1,
          c_updated_at = 102\<rparr>],
      subcategories =
        [\<lparr>c_id = ''S1'', c_name = ''Hand tools'', product_ids = [''prod_0001''],
          product_count = 1, c_updated_at = 103, s_category_id = ''C1''\<rparr>]\<rparr>"

text \<open>
  Further states and arguments of the examples: an update that supplies no field; the
  catalog in which the product exists and neither parent lists it (what a creation leaves
  when it stops after its first write); the catalog in which neither parent lists the
  product and both counts are above the lengths of the lists; catalogs with a foreign key, with a key that is not
  a number after \<^verbatim>\<open>prod_\<close>, and with the key \<^verbatim>\<open>prod_9999\<close>; two calls of a serial
  caller.
\<close>

definition no_fields :: ProductUpdate where
  "no_fields =
     \<lparr>u_id = None, u_product_id = None, u_product_name = None, u_product_title = None,
      u_product_description = None, u_image_urls = None, u_image_count = None,
      u_subcategory_id = None, u_category_id = None, u_status = None, u_created_at = None,
      u_updated_at = None\<rparr>"



definition mixed_catalog :: db where
  "mixed_catalog =
     \<lparr>products = [widget, widget\<lparr>p_id := ''legacy-7''\<rparr>, widget\<lparr>p_id := ''prod_0012''\<rparr>],
      categories = [], subcategories = []\<rparr>"

definition malformed_catalog :: db where
  "malformed_catalog =
     \<lparr>products = [widget\<lparr>p_id := ''prod_abc''\<rparr>], categories = [], subcategories = []\<rparr>"

definition full_catalog :: db where
  "full_catalog =
     \<lparr>products = [widget\<lparr>p_id := ''prod_9999''\<rparr>], categories = [], subcategories = []\<rparr>"

definition two_calls :: "create_call list" where
  "two_calls = [(widget_form, [''u1'', ''u2''], 100, 101, 102, 103),
                (widget_form, [''u3''], 200, 201, 202, 203)]"

section \<open>Facts about the store\<close>

lemma findOne_Some_holds: "findOne flt ds = Some d \<Longrightarrow> flt d"
  by (induction ds) (auto split: if_splits)

lemma findOne_updateOne:
  "findOne flt ds = Some d \<Longrightarrow> flt (upd d) \<Longrightarrow> findOne flt (updateOne flt upd ds) = Some (upd d)"
  by (induction ds) (auto split: if_splits)

lemma updateOne_absent: "findOne flt ds = None \<Longrightarrow> updateOne flt upd ds = ds"
  by (induction ds) (auto split: if_splits)

lemma deleteOne_absent: "findOne flt ds = None \<Longrightarrow> deleteOne flt ds = ds"
  by (induction ds) (auto split: if_splits)

lemma findOne_None_iff: "findOne flt ds = None \<longleftrightarrow> (\<forall>d \<in> set ds. \<not> flt d)"
  by (induction ds) auto

lemma findOne_deleteOne_distinct:
  "distinct (map key ds) \<Longrightarrow> findOne (\<lambda>d. key d = k) (deleteOne (\<lambda>d. key d = k) ds) = None"
  by (induction ds) (auto simp: findOne_None_iff image_iff)

lemma findOne_append_new:
  "findOne flt ds = None \<Longrightarrow> flt d \<Longrightarrow> findOne flt (ds @ [d]) = Some d"
  by (induction ds) (auto split: if_splits)

lemma mset_deleteOne:
  "findOne flt ds = Some d \<Longrightarrow> add_mset d (mset (deleteOne flt ds)) = mset ds"
  by (induction ds) (auto split: if_splits)

lemma c_id_push [simp]: "c_id (push_product pid now c) = c_id c"
  by (simp add: push_product_def)

lemma c_id_pull [simp]: "c_id (pull_product pid now c) = c_id c"
  by (simp add: pull_product_def)

lemma findOne_pulled:
  assumes "findOne (\<lambda>c. c_id c = k) cs = Some c"
  shows "findOne (\<lambda>c. c_id c = k) (updateOne (\<lambda>c. c_id c = k) (pull_product pid now) cs)
           = Some (pull_product pid now c)"
proof -
  have "c_id c = k"
    using assms by (rule findOne_Some_holds)
  then show ?thesis
    using assms by (simp add: findOne_updateOne)
qed

section \<open>Facts about decimal numerals\<close>

lemma digit_cases: "d < 10 \<Longrightarrow> d \<in> {0, 1, 2, 3, 4, 5, 6, 7, 8, 9::nat}"
  by auto

lemma digit_val_digit_char: "d < 10 \<Longrightarrow> digit_val (digit_char d) = d"
  by (drule digit_cases) (auto simp: digit_val_def digit_char_def)

lemma is_digit_digit_char: "d < 10 \<Longrightarrow> is_digit (digit_char d)"
  by (drule digit_cases) (auto simp: is_digit_def digit_char_def)

lemma all_digits_snoc: "all_digits s \<Longrightarrow> is_digit c \<Longrightarrow> all_digits (s @ [c])"
  by (simp add: all_digits_def)

lemma showNat_all_digits: "all_digits (showNat n)"
proof (induction n rule: showNat.induct)
  case (1 n)
  show ?case
  proof (cases "n < 10")
    case True
    then show ?thesis
      by (simp add: showNat.simps [of n] all_digits_def is_digit_digit_char)
  next
    case False
    then have "all_digits (showNat (n div 10))"
      by (rule "1.IH")
    then show ?thesis
      using False by (simp add: showNat.simps [of n] all_digits_snoc is_digit_digit_char)
  qed
qed

lemma decimal_value_snoc: "decimal_value (s @ [c]) = 10 * decimal_value s + digit_val c"
  by (simp add: decimal_value_def)

lemma decimal_value_showNat: "decimal_value (showNat n) = n"
proof (induction n rule: showNat.induct)
  case (1 n)
  show ?case
  proof (cases "n < 10")
    case True
    then show ?thesis
      by (simp add: showNat.simps [of n] decimal_value_def digit_val_digit_char)
  next
    case False
    then have "decimal_value (showNat (n div 10)) = n div 10"
      by (rule "1.IH")
    then show ?thesis
      using False by (simp add: showNat.simps [of n] decimal_value_snoc digit_val_digit_char)
  qed
qed

lemma foldl_zeros: "foldl (\<lambda>acc c. 10 * acc + digit_val c) 0 (replicate m CHR ''0'') = 0"
  by (induction m) (simp_all add: digit_val_def)

lemma decimal_value_zeros: "decimal_value (replicate m CHR ''0'' @ s) = decimal_value s"
  by (simp add: decimal_value_def foldl_zeros)

lemma is_digit_zero: "is_digit CHR ''0''"
  by (simp add: is_digit_def)

lemma all_digits_zeros: "all_digits s \<Longrightarrow> all_digits (replicate m CHR ''0'' @ s)"
  by (induction m) (simp_all add: all_digits_def is_digit_zero)

lemma toInt_all_digits: "all_digits s \<Longrightarrow> toInt s = int32 (int (decimal_value s))"
  by (cases s) (auto simp: toInt_def all_digits_def is_digit_def)

lemma toInt_error: "toInt s = Inl e \<Longrightarrow> e = ConversionFailure"
  by (auto simp: toInt_def int32_def split: list.splits if_splits)

lemma int32_in_range: "n \<le> 2147483647 \<Longrightarrow> int32 (int n) = Inr (int n)"
  by (simp add: int32_def)

lemma length_showNat_lower: "10 ^ k \<le> n \<Longrightarrow> k < length (showNat n)"
proof (induction k arbitrary: n)
  case 0
  then show ?case
    using showNat_all_digits [of n] by (simp add: all_digits_def)
next
  case (Suc k)
  define x :: nat where "x = 10 ^ k"
  have "1 \<le> x"
    by (simp add: x_def)
  moreover have "10 * x \<le> n"
    using Suc.prems by (simp add: x_def)
  ultimately have "x \<le> n div 10" "\<not> n < 10"
    by arith+
  then have "10 ^ k \<le> n div 10" "\<not> n < 10"
    by (simp_all add: x_def)
  then show ?case
    using Suc.IH [of "n div 10"] by (simp add: showNat.simps [of n])
qed

lemma length_showNat_upper: "n < 10 ^ Suc k \<Longrightarrow> length (showNat n) \<le> Suc k"
proof (induction k arbitrary: n)
  case 0
  then show ?case
    by (simp add: showNat.simps [of n])
next
  case (Suc k)
  then have "n div 10 < 10 ^ Suc k"
    by (simp add: div_less_iff_less_mult)
  then show ?case
    using Suc.IH [of "n div 10"] by (simp add: showNat.simps [of n])
qed

lemma toString_nat: "toString (int n) = showNat n"
  by (simp add: toString_def)

lemma formatProductId_nat:
  "formatProductId (int n) = ''prod_'' @ replicate (4 - length (showNat n)) CHR ''0'' @ showNat n"
  by (simp add: formatProductId_def padStart_def toString_nat)

lemma match_prod_format: "match_prod (formatProductId k)"
  by (simp add: match_prod_def formatProductId_def)

lemma drop_format: "drop 5 (formatProductId k) = padStart 4 CHR ''0'' (toString k)"
  by (simp add: formatProductId_def)

lemma suffix_format_digits: "all_digits (drop 5 (formatProductId (int n)))"
  by (simp add: formatProductId_nat all_digits_zeros showNat_all_digits)

lemma suffix_format_value: "decimal_value (drop 5 (formatProductId (int n))) = n"
  by (simp add: formatProductId_nat decimal_value_zeros decimal_value_showNat)

lemma length_suffix_four: "n < 10000 \<Longrightarrow> length (drop 5 (formatProductId (int n))) = 4"
proof -
  assume "n < 10000"
  then have "n < 10 ^ Suc 3"
    by simp
  then have "length (showNat n) \<le> Suc 3"
    by (rule length_showNat_upper)
  then show ?thesis
    by (simp add: formatProductId_nat)
qed

lemma replicate_small:
  "replicate 1 c = [c]" "replicate 2 c = [c, c]" "replicate 3 c = [c, c, c]"
  "replicate 4 c = [c, c, c, c]"
  by (simp_all add: eval_nat_numeral)

lemmas decimal_eval = all_digits_def is_digit_def decimal_value_def digit_val_def

section \<open>Facts about the allocation\<close>

lemma project_numeric_digits:
  "(\<forall>k \<in> set ks. all_digits (drop 5 k) \<and> decimal_value (drop 5 k) \<le> 2147483647) \<Longrightarrow>
   project_numeric ks = Inr (map (\<lambda>k. int (decimal_value (drop 5 k))) ks)"
  by (induction ks) (simp_all add: toInt_all_digits int32_in_range)

lemma project_numeric_fails:
  "i \<in> set ks \<Longrightarrow> toInt (drop 5 i) = Inl ConversionFailure \<Longrightarrow>
   project_numeric ks = Inl ConversionFailure"
  by (induction ks) (auto split: sum.splits dest: toInt_error)

lemma first_of_sorted_desc:
  fixes ns :: "int list"
  assumes "ns \<noteq> []"
  shows "take 1 (sort_key uminus ns) = [Max (set ns)]"
proof -
  obtain h t where ht: "sort_key uminus ns = h # t"
    using assms by (cases "sort_key uminus ns") (auto dest: arg_cong [where f = length])
  have "sorted (map uminus (sort_key uminus ns))"
    by (rule sorted_sort_key)
  then have le: "\<forall>x \<in> set t. x \<le> h"
    by (simp add: ht)
  have "set ns = insert h (set t)"
    using arg_cong [OF ht, of set] by simp
  then have "Max (set ns) = h"
    using le by (auto intro!: Max_eqI)
  then show ?thesis
    by (simp add: ht)
qed

lemma fold_max_nat: "ms \<noteq> [] \<Longrightarrow> int (fold max ms (0::nat)) = Max (set (map int ms))"
proof -
  assume ne: "ms \<noteq> []"
  have "fold max ms 0 = Max (set (0 # ms))"
    by (simp only: Max.set_eq_fold)
  also have "\<dots> = Max (set ms)"
    using ne by (simp add: Max_insert)
  finally have "int (fold max ms 0) = int (Max (set ms))"
    by simp
  also have "\<dots> = Max (int ` set ms)"
    using ne by (intro mono_Max_commute) (auto simp: mono_def)
  finally show ?thesis
    by simp
qed

lemma next_number:
  "(case take 1 (sort_key uminus (map int ms)) of [] \<Rightarrow> 1 | numeric_part # _ \<Rightarrow> numeric_part + 1)
     = int (fold max ms 0 + 1)"
proof (cases "ms = []")
  case True
  then show ?thesis by simp
next
  case False
  then have "take 1 (sort_key uminus (map int ms)) = [Max (set (map int ms))]"
    by (intro first_of_sorted_desc) simp
  moreover have "int (fold max ms 0 + 1) = Max (set (map int ms)) + 1"
    using fold_max_nat [OF False] by simp
  ultimately show ?thesis
    by simp
qed

lemma getNextProductId_allocates:
  assumes "\<forall>k \<in> set (map p_id (products d)).
      match_prod k \<longrightarrow> all_digits (drop 5 k) \<and> decimal_value (drop 5 k) \<le> 2147483647"
  shows "getNextProductId d = Inr (formatProductId (int (fold max
      (map (\<lambda>k. decimal_value (drop 5 k)) (filter match_prod (map p_id (products d)))) 0 + 1)))"
proof -
  let ?ks = "filter match_prod (map p_id (products d))"
  have "project_numeric ?ks = Inr (map (\<lambda>k. int (decimal_value (drop 5 k))) ?ks)"
    using assms by (intro project_numeric_digits) auto
  then have "aggregate_pipeline (products d)
      = Inr (take 1 (sort_key uminus (map int (map (\<lambda>k. decimal_value (drop 5 k)) ?ks))))"
    by (simp add: aggregate_pipeline_def comp_def)
  then show ?thesis
    by (simp only: getNextProductId_def sum.case next_number)
qed

lemma filter_spec_pattern:
  assumes "\<forall>k \<in> set ks. match_prod k \<longrightarrow> all_digits (drop 5 k)"
  shows "filter matches_prod_digits ks = filter match_prod ks"
  using assms by (intro filter_cong) (auto simp: matches_prod_digits_def match_prod_def)

lemma getNextProductId_empty: "products d = [] \<Longrightarrow> getNextProductId d = Inr ''prod_0001''"
  by (simp add: getNextProductId_def aggregate_pipeline_def formatProductId_def padStart_def
      toString_def showNat.simps digit_char_def replicate_small)

section \<open>Facts about the operations\<close>

lemma createProduct_Inr:
  assumes "createProduct d productData imageUrls t1 t2 t3 t4 = Inr (d', p)"
  shows "getNextProductId d = Inr (p_id p)"
    and "product_id p = p_id p"
    and "p_id p \<notin> set (map p_id (products d))"
    and "products d' = products d @ [p]"
    and "categories d' = updateOne (\<lambda>c. c_id c = f_category_id productData)
           (push_product (p_id p) t3) (categories d)"
    and "subcategories d' = updateOne (\<lambda>s. c_id s = f_subcategory_id productData)
           (push_product (p_id p) t4) (subcategories d)"
    and "image_urls p = imageUrls"
    and "image_count p = int (length imageUrls)"
  using assms
  by (auto simp: createProduct_def insertOne_def Let_def split: sum.splits if_splits)

lemma scenario_create:
  "createProduct scenario_catalog widget_form [''u1'', ''u2''] 100 101 102 103 =
     Inr (widget_catalog, widget)"
  by (simp add: createProduct_def getNextProductId_empty insertOne_def push_product_def Let_def
      scenario_catalog_def widget_form_def widget_def widget_catalog_def)

lemma getProductById_created:
  assumes "createProduct d productData imageUrls t1 t2 t3 t4 = Inr (d', p)"
  shows "getProductById d' (p_id p) = Some p"
proof -
  have "findOne (\<lambda>q. p_id q = p_id p) (products d) = None"
    using createProduct_Inr(3) [OF assms] by (auto simp: findOne_None_iff image_iff)
  then show ?thesis
    by (simp add: getProductById_def createProduct_Inr(4) [OF assms] findOne_append_new)
qed

lemma set_fields_sel:
  "product_id (set_fields u now p) = (case u_product_id u of Some v \<Rightarrow> v | None \<Rightarrow> product_id p)"
  "product_name (set_fields u now p) = (case u_product_name u of Some v \<Rightarrow> v | None \<Rightarrow> product_name p)"
  "product_title (set_fields u now p)
     = (case u_product_title u of Some v \<Rightarrow> v | None \<Rightarrow> product_title p)"
  "product_description (set_fields u now p)
     = (case u_product_description u of Some v \<Rightarrow> v | None \<Rightarrow> product_description p)"
  "image_urls (set_fields u now p) = (case u_image_urls u of Some v \<Rightarrow> v | None \<Rightarrow> image_urls p)"
  "image_count (set_fields u now p) = (case u_image_count u of Some v \<Rightarrow> v | None \<Rightarrow> image_count p)"
  "subcategory_id (set_fields u now p)
     = (case u_subcategory_id u of Some v \<Rightarrow> v | None \<Rightarrow> subcategory_id p)"
  "category_id (set_fields u now p) = (case u_category_id u of Some v \<Rightarrow> v | None \<Rightarrow> category_id p)"
  "status (set_fields u now p) = (case u_status u of Some v \<Rightarrow> v | None \<Rightarrow> status p)"
  "created_at (set_fields u now p) = (case u_created_at u of Some v \<Rightarrow> v | None \<Rightarrow> created_at p)"
  "updated_at (set_fields u now p) = now"
  by (simp_all add: set_fields_def)

lemma updateProduct_accepted:
  assumes "getProductById d productId = Some p"
    and "u_id u = None \<or> u_id u = Some productId"
  shows "updateProduct d productId u now
      = Inr (d\<lparr>products := updateOne (\<lambda>q. p_id q = productId) (set_fields u now) (products d)\<rparr>)"
    and "getProductById
        (d\<lparr>products := updateOne (\<lambda>q. p_id q = productId) (set_fields u now) (products d)\<rparr>)
        productId = Some (set_fields u now p)"
    and "p_id (set_fields u now p) = p_id p"
proof -
  have found: "findOne (\<lambda>q. p_id q = productId) (products d) = Some p"
    using assms(1) by (simp add: getProductById_def)
  then have key: "p_id p = productId"
    by (rule findOne_Some_holds)
  show same: "p_id (set_fields u now p) = p_id p"
    using assms(2) key by (auto simp: set_fields_def)
  have "\<not> changes_key u p"
    using assms(2) key by (auto simp: changes_key_def)
  then show "updateProduct d productId u now
      = Inr (d\<lparr>products := updateOne (\<lambda>q. p_id q = productId) (set_fields u now) (products d)\<rparr>)"
    by (simp add: updateProduct_def found)
  have "p_id (set_fields u now p) = productId"
    using same key by simp
  with found show "getProductById
        (d\<lparr>products := updateOne (\<lambda>q. p_id q = productId) (set_fields u now) (products d)\<rparr>)
        productId = Some (set_fields u now p)"
    by (simp add: getProductById_def findOne_updateOne)
qed

lemma updateProduct_rejected:
  assumes "getProductById d productId = Some p" and "u_id u = Some k" and "k \<noteq> productId"
  shows "updateProduct d productId u now = Inl ImmutableField"
proof -
  have found: "findOne (\<lambda>q. p_id q = productId) (products d) = Some p"
    using assms(1) by (simp add: getProductById_def)
  then have "p_id p = productId"
    by (rule findOne_Some_holds)
  then have "changes_key u p"
    using assms(2,3) by (simp add: changes_key_def)
  then show ?thesis
    by (simp add: updateProduct_def found)
qed

lemma widget_lookup: "getProductById widget_catalog ''prod_0001'' = Some widget"
  by (simp add: getProductById_def widget_catalog_def widget_def)

lemma deleteProduct_absent:
  "getProductById d productId = None \<Longrightarrow> deleteProduct d productId t1 t2 = d"
  by (simp add: deleteProduct_def)

lemma deleteProduct_present:
  assumes "getProductById d productId = Some p"
  shows "products (deleteProduct d productId t1 t2)
           = deleteOne (\<lambda>q. p_id q = productId) (products d)"
    and "categories (deleteProduct d productId t1 t2)
           = updateOne (\<lambda>c. c_id c = category_id p) (pull_product productId t1) (categories d)"
    and "subcategories (deleteProduct d productId t1 t2)
           = updateOne (\<lambda>s. c_id s = subcategory_id p) (pull_product productId t2)
               (subcategories d)"
  using assms by (simp_all add: deleteProduct_def)

lemma widget_absent: "getProductById widget_catalog ''prod_0002'' = None"
  by (simp add: getProductById_def widget_catalog_def widget_def)

lemma widget_category:
  "findOne (\<lambda>c. c_id c = category_id widget) (categories widget_catalog)
     = Some \<lparr>c_id = ''C1'', c_name = ''Tools'', product_ids = [''prod_0001''], product_count = 1,
          c_updated_at = 102\<rparr>"
  by (simp add: widget_catalog_def widget_def)

lemma widget_subcategory:
  "findOne (\<lambda>s. c_id s = subcategory_id widget) (subcategories widget_catalog)
     = Some \<lparr>c_id = ''S1'', c_name = ''Hand tools'', product_ids = [''prod_0001''],
          product_count = 1, c_updated_at = 103, s_category_id = ''C1''\<rparr>"
  by (simp add: widget_catalog_def widget_def)


lemma scenario_empty: "products scenario_catalog = []"
  by (simp add: scenario_catalog_def)

lemma full_pipeline: "aggregate_pipeline (products full_catalog) = Inr [9999]"
  by (simp add: aggregate_pipeline_def full_catalog_def match_prod_def toInt_def decimal_eval
      int32_def)

section \<open>Facts about serial creation\<close>

lemma serial_ids_Suc: "serial_ids 0 (Suc k) = serial_ids 0 k @ [formatProductId (int (Suc k))]"
  by (simp add: serial_ids_def)

lemma serial_ids_Cons:
  "serial_ids k (Suc n) = formatProductId (int (Suc k)) # serial_ids (Suc k) n"
  by (simp add: serial_ids_def upt_conv_Cons del: upt_Suc)

lemma serial_ids_set: "set (serial_ids 0 k) = (\<lambda>j. formatProductId (int j)) ` {1..k}"
  by (auto simp: serial_ids_def)

lemma serial_suffixes: "map (\<lambda>i. decimal_value (drop 5 i)) (serial_ids k n) = [Suc k..<Suc (k + n)]"
  by (simp add: serial_ids_def comp_def suffix_format_value)

lemma fold_max_upto: "fold max [Suc 0..<Suc k] 0 = k"
  by (induction k) simp_all

lemma next_after_run:
  assumes "map p_id (products d) = serial_ids 0 k" and "k \<le> 2147483647"
  shows "getNextProductId d = Inr (formatProductId (int (Suc k)))"
proof -
  have all: "\<forall>i \<in> set (serial_ids 0 k). match_prod i"
    by (auto simp: serial_ids_def match_prod_format)
  then have flt: "filter match_prod (serial_ids 0 k) = serial_ids 0 k"
    by simp
  have "\<forall>i \<in> set (map p_id (products d)).
      match_prod i \<longrightarrow> all_digits (drop 5 i) \<and> decimal_value (drop 5 i) \<le> 2147483647"
    unfolding assms(1) using assms(2)
    by (auto simp: serial_ids_def suffix_format_digits suffix_format_value)
  from getNextProductId_allocates [OF this] show ?thesis
    unfolding assms(1) flt serial_suffixes by (simp add: fold_max_upto del: upt_Suc of_nat_Suc)
qed

lemma fresh_after_run: "formatProductId (int (Suc k)) \<notin> set (serial_ids 0 k)"
proof
  assume "formatProductId (int (Suc k)) \<in> set (serial_ids 0 k)"
  then obtain j where j: "j \<le> k" "formatProductId (int (Suc k)) = formatProductId (int j)"
    by (auto simp: serial_ids_set)
  from arg_cong [OF j(2), of "\<lambda>i. decimal_value (drop 5 i)"] have "Suc k = j"
    by (simp only: suffix_format_value)
  with j(1) show False
    by simp
qed

lemma createProduct_after_run:
  assumes "map p_id (products d) = serial_ids 0 k" and "k \<le> 2147483647"
  shows "\<exists>d' p. createProduct d productData imageUrls t1 t2 t3 t4 = Inr (d', p) \<and>
     p_id p = formatProductId (int (Suc k)) \<and>
     map p_id (products d') = serial_ids 0 (Suc k)"
  using fresh_after_run [of k]
  by (simp add: createProduct_def next_after_run [OF assms] insertOne_def Let_def assms(1)
      serial_ids_Suc del: of_nat_Suc)

lemma createProducts_run:
  "map p_id (products d) = serial_ids 0 k \<Longrightarrow> k + length calls \<le> 2147483648 \<Longrightarrow>
   \<exists>d' ps. createProducts d calls = Inr (d', ps) \<and>
     map p_id ps = serial_ids k (length calls) \<and>
     map p_id (products d') = serial_ids 0 (k + length calls)"
proof (induction calls arbitrary: d k)
  case Nil
  then show ?case
    by (simp add: serial_ids_def)
next
  case (Cons call calls)
  obtain productData imageUrls t1 t2 t3 t4 where call: "call = (productData, imageUrls, t1, t2, t3, t4)"
    by (cases call) auto
  have k: "k \<le> 2147483647"
    using Cons.prems(2) by simp
  from createProduct_after_run [OF Cons.prems(1) k, of productData imageUrls t1 t2 t3 t4]
  obtain d' p where step: "createProduct d productData imageUrls t1 t2 t3 t4 = Inr (d', p)"
    "p_id p = formatProductId (int (Suc k))" "map p_id (products d') = serial_ids 0 (Suc k)"
    by blast
  have "Suc k + length calls \<le> 2147483648"
    using Cons.prems(2) by simp
  from Cons.IH [OF step(3) this]
  obtain d'' ps where rest: "createProducts d' calls = Inr (d'', ps)"
    "map p_id ps = serial_ids (Suc k) (length calls)"
    "map p_id (products d'') = serial_ids 0 (Suc k + length calls)"
    by blast
  show ?case
    by (simp add: call step rest serial_ids_Cons del: of_nat_Suc)
qed

lemma createProducts_append:
  "createProducts d (xs @ ys) =
     (case createProducts d xs of
        Inl e \<Rightarrow> Inl e
      | Inr (d', ps) \<Rightarrow>
          (case createProducts d' ys of
             Inl e \<Rightarrow> Inl e
           | Inr (d'', qs) \<Rightarrow> Inr (d'', ps @ qs)))"
  by (induction d xs rule: createProducts.induct) (auto split: sum.splits)

lemma overflow_after_run:
  assumes "map p_id (products d) = serial_ids 0 k" and "2147483647 < k"
  shows "getNextProductId d = Inl ConversionFailure"
proof -
  let ?i = "formatProductId (int k)"
  have "k \<in> {1..k}"
    using assms(2) by simp
  then have mem: "?i \<in> set (serial_ids 0 k)"
    unfolding serial_ids_set by (rule imageI)
  have "toInt (drop 5 ?i) = int32 (int k)"
    by (simp add: toInt_all_digits suffix_format_digits suffix_format_value)
  also have "\<dots> = Inl ConversionFailure"
    using assms(2) by (simp add: int32_def)
  finally have "project_numeric (filter match_prod (serial_ids 0 k)) = Inl ConversionFailure"
    using mem by (intro project_numeric_fails [of ?i]) (simp_all add: match_prod_format)
  then show ?thesis
    by (simp add: getNextProductId_def aggregate_pipeline_def assms(1))
qed

lemma createProducts_overflow:
  assumes "products d = []" and "2147483647 < length calls" and "length calls \<le> 2147483648"
  shows "createProducts d (calls @ [(productData, imageUrls, t1, t2, t3, t4)])
     = Inl ConversionFailure"
proof -
  have "map p_id (products d) = serial_ids 0 0"
    by (simp add: assms(1) serial_ids_def)
  moreover have "0 + length calls \<le> 2147483648"
    using assms(3) by simp
  ultimately obtain d' ps where run: "createProducts d calls = Inr (d', ps)"
    "map p_id (products d') = serial_ids 0 (0 + length calls)"
    using createProducts_run [of d 0 calls] by blast
  have "getNextProductId d' = Inl ConversionFailure"
    using run(2) assms(2) by (intro overflow_after_run [of d' "length calls"]) simp_all
  then have "createProduct d' productData imageUrls t1 t2 t3 t4 = Inl ConversionFailure"
    by (simp add: createProduct_def)
  then show ?thesis
    by (simp add: createProducts_append run(1))
qed

lemma createProducts_Cons:
  assumes "createProducts d ((productData, imageUrls, t1, t2, t3, t4) # calls) = Inr (d', ps)"
  obtains e p qs where "createProduct d productData imageUrls t1 t2 t3 t4 = Inr (e, p)"
    and "createProducts e calls = Inr (d', qs)" and "ps = p # qs"
proof (cases "createProduct d productData imageUrls t1 t2 t3 t4")
  case (Inl err)
  with assms show ?thesis
    by simp
next
  case (Inr r)
  obtain e p where r: "r = (e, p)"
    by (cases r)
  show ?thesis
  proof (cases "createProducts e calls")
    case (Inl err)
    with assms Inr r show ?thesis
      by simp
  next
    case (Inr r')
    obtain d'' qs where r': "r' = (d'', qs)"
      by (cases r')
    from assms \<open>createProduct d productData imageUrls t1 t2 t3 t4 = Inr r\<close> r Inr r'
    have "d'' = d'" "ps = p # qs"
      by simp_all
    with that [of e p qs] \<open>createProduct d productData imageUrls t1 t2 t3 t4 = Inr r\<close> r Inr r'
    show ?thesis
      by simp
  qed
qed

lemma createProducts_product_id:
  "createProducts d calls = Inr (d', ps) \<Longrightarrow> map product_id ps = map p_id ps"
proof (induction calls arbitrary: d d' ps)
  case Nil
  then show ?case
    by simp
next
  case (Cons call calls)
  obtain productData imageUrls t1 t2 t3 t4 where call: "call = (productData, imageUrls, t1, t2, t3, t4)"
    by (cases call) auto
  from Cons.prems obtain e p qs where
    step: "createProduct d productData imageUrls t1 t2 t3 t4 = Inr (e, p)"
    and rest: "createProducts e calls = Inr (d', qs)" and ps: "ps = p # qs"
    unfolding call by (rule createProducts_Cons)
  have "map product_id qs = map p_id qs"
    using rest by (rule Cons.IH)
  then show ?case
    by (simp add: ps createProduct_Inr(2) [OF step])
qed

section \<open>The claims\<close>

subsection \<open>C1: creation and the parents\<close>

text \<open>
  C1. Let \<^verbatim>\<open>createProduct\<close> succeed, and let the category and the subcategory it names
  exist, each with \<open>product_count\<close> equal to the length of \<open>product_ids\<close> and without the
  new identifier in that list. Then afterwards each of the two documents has the new
  identifier appended to its list, exactly once in it, its count is one more, and its count
  still is the length of its list.
\<close>

theorem createProduct_parents:
  assumes "createProduct d productData imageUrls t1 t2 t3 t4 = Inr (d', p)"
    and "findOne (\<lambda>c. c_id c = f_category_id productData) (categories d) = Some c"
    and "findOne (\<lambda>s. c_id s = f_subcategory_id productData) (subcategories d) = Some s"
    and "product_count c = int (length (product_ids c))"
    and "p_id p \<notin> set (product_ids c)"
    and "product_count s = int (length (product_ids s))"
    and "p_id p \<notin> set (product_ids s)"
  shows "\<exists>c' s'.
      findOne (\<lambda>c. c_id c = f_category_id productData) (categories d') = Some c' \<and>
      findOne (\<lambda>s. c_id s = f_subcategory_id productData) (subcategories d') = Some s' \<and>
      product_ids c' = product_ids c @ [p_id p] \<and>
      product_count c' = product_count c + 1 \<and>
      product_count c' = int (length (product_ids c')) \<and>
      count_list (product_ids c') (p_id p) = 1 \<and>
      product_ids s' = product_ids s @ [p_id p] \<and>
      product_count s' = product_count s + 1 \<and>
      product_count s' = int (length (product_ids s')) \<and>
      count_list (product_ids s') (p_id p) = 1"
proof -
  let ?c' = "push_product (p_id p) t3 c" and ?s' = "push_product (p_id p) t4 s"
  have fc: "c_id c = f_category_id productData" and fs: "c_id s = f_subcategory_id productData"
    using assms(2,3) by (auto dest: findOne_Some_holds)
  have "findOne (\<lambda>c. c_id c = f_category_id productData) (categories d') = Some ?c'"
    using assms(2) fc by (simp add: createProduct_Inr(5)[OF assms(1)] findOne_updateOne)
  moreover have "findOne (\<lambda>s. c_id s = f_subcategory_id productData) (subcategories d') = Some ?s'"
    using assms(3) fs by (simp add: createProduct_Inr(6)[OF assms(1)] findOne_updateOne)
  moreover have "count_list (product_ids ?c') (p_id p) = 1"
    using assms(5) by (simp add: push_product_def count_list_0_iff)
  moreover have "count_list (product_ids ?s') (p_id p) = 1"
    using assms(7) by (simp add: push_product_def count_list_0_iff)
  ultimately show ?thesis
    using assms(4,6) by (simp add: push_product_def)
qed

theorem createProduct_parents_witness:
  "createProduct scenario_catalog widget_form [''u1'', ''u2''] 100 101 102 103 =
     Inr (widget_catalog, widget) \<and>
   (\<exists>c' s'.
      findOne (\<lambda>c. c_id c = ''C1'') (categories widget_catalog) = Some c' \<and>
      findOne (\<lambda>s. c_id s = ''S1'') (subcategories widget_catalog) = Some s' \<and>
      product_ids c' = [''prod_0001''] \<and> product_count c' = 1 \<and>
      product_ids s' = [''prod_0001''] \<and> product_count s' = 1)"
proof -
  let ?c = "\<lparr>c_id = ''C1'', c_name = ''Tools'', product_ids = [], product_count = 0,
          c_updated_at = 0\<rparr>"
  let ?s = "\<lparr>c_id = ''S1'', c_name = ''Hand tools'', product_ids = [], product_count = 0,
          c_updated_at = 0, s_category_id = ''C1''\<rparr>"
  have c: "findOne (\<lambda>c. c_id c = f_category_id widget_form) (categories scenario_catalog) = Some ?c"
    by (simp add: scenario_catalog_def widget_form_def)
  have s: "findOne (\<lambda>s. c_id s = f_subcategory_id widget_form) (subcategories scenario_catalog)
      = Some ?s"
    by (simp add: scenario_catalog_def widget_form_def)
  have "\<exists>c' s'.
      findOne (\<lambda>c. c_id c = ''C1'') (categories widget_catalog) = Some c' \<and>
      findOne (\<lambda>s. c_id s = ''S1'') (subcategories widget_catalog) = Some s' \<and>
      product_ids c' = [''prod_0001''] \<and> product_count c' = 1 \<and>
      product_ids s' = [''prod_0001''] \<and> product_count s' = 1"
    using createProduct_parents [OF scenario_create c s]
    by (auto simp: widget_form_def widget_def)
  with scenario_create show ?thesis
    by (rule conjI)
qed

subsection \<open>C2: serial creation\<close>

text \<open>
  C2, as amended. From a store without products, \<open>N\<close> serial calls of
  \<^verbatim>\<open>createProduct\<close> with \<open>N \<le> 2147483648\<close> all succeed; the identifiers they return are, in
  call order, the numbers \<open>1\<close>, ..., \<open>N\<close> formatted by \<^verbatim>\<open>padStart(4, '0')\<close> after
  \<^verbatim>\<open>prod_\<close>; \<open>product_id\<close> is the key; the numeric suffixes are \<open>1\<close>, ..., \<open>N\<close>,
  strictly increasing; the identifiers are distinct; and the suffix of each of the first
  9999 has exactly four digits.
\<close>

theorem createProducts_serial:
  assumes "products d = []" and "length calls = N" and "N \<le> 2147483648"
  shows "\<exists>d' ps. createProducts d calls = Inr (d', ps) \<and>
     length ps = N \<and>
     map p_id ps = map (\<lambda>j. formatProductId (int j)) [1..<Suc N] \<and>
     map product_id ps = map p_id ps \<and>
     map (\<lambda>p. decimal_value (drop 5 (p_id p))) ps = [1..<Suc N] \<and>
     sorted_wrt (<) (map (\<lambda>p. decimal_value (drop 5 (p_id p))) ps) \<and>
     distinct (map p_id ps) \<and>
     (\<forall>i < N. i < 9999 \<longrightarrow> length (drop 5 (p_id (ps ! i))) = 4)"
proof -
  have "map p_id (products d) = serial_ids 0 0"
    by (simp add: assms(1) serial_ids_def)
  moreover have "0 + length calls \<le> 2147483648"
    using assms(2,3) by simp
  ultimately obtain d' ps where run: "createProducts d calls = Inr (d', ps)"
    and "map p_id ps = serial_ids 0 (length calls)"
    using createProducts_run [of d 0 calls] by blast
  then have ids: "map p_id ps = map (\<lambda>j. formatProductId (int j)) [1..<Suc N]"
    by (simp add: serial_ids_def assms(2) del: upt_Suc)
  have len: "length ps = N"
    using arg_cong [OF ids, of length] by simp
  have "map (\<lambda>p. decimal_value (drop 5 (p_id p))) ps
      = map (\<lambda>i. decimal_value (drop 5 i)) (map p_id ps)"
    by (simp add: comp_def)
  also have "\<dots> = [1..<Suc N]"
    unfolding ids by (simp add: comp_def suffix_format_value del: upt_Suc)
  finally have suffixes: "map (\<lambda>p. decimal_value (drop 5 (p_id p))) ps = [1..<Suc N]" .
  have incr: "sorted_wrt (<) (map (\<lambda>p. decimal_value (drop 5 (p_id p))) ps)"
    unfolding suffixes by (rule sorted_wrt_upt)
  have "distinct (map (\<lambda>i. decimal_value (drop 5 i)) (map p_id ps))"
    using suffixes by (simp add: comp_def del: upt_Suc)
  then have dist: "distinct (map p_id ps)"
    by (simp only: distinct_map)
  have four: "length (drop 5 (p_id (ps ! i))) = 4" if "i < N" "i < 9999" for i
  proof -
    have "p_id (ps ! i) = map p_id ps ! i"
      using that(1) len by simp
    also have "\<dots> = formatProductId (int (Suc i))"
      unfolding ids using that(1) by (simp del: upt_Suc of_nat_Suc)
    finally have e: "p_id (ps ! i) = formatProductId (int (Suc i))" .
    have "Suc i < 10000"
      using that(2) by simp
    from length_suffix_four [OF this] show ?thesis
      by (simp only: e)
  qed
  have "createProducts d calls = Inr (d', ps) \<and>
     length ps = N \<and>
     map p_id ps = map (\<lambda>j. formatProductId (int j)) [1..<Suc N] \<and>
     map product_id ps = map p_id ps \<and>
     map (\<lambda>p. decimal_value (drop 5 (p_id p))) ps = [1..<Suc N] \<and>
     sorted_wrt (<) (map (\<lambda>p. decimal_value (drop 5 (p_id p))) ps) \<and>
     distinct (map p_id ps) \<and>
     (\<forall>i < N. i < 9999 \<longrightarrow> length (drop 5 (p_id (ps ! i))) = 4)"
    by (intro conjI allI impI run len ids createProducts_product_id [OF run] suffixes incr dist four)
  then show ?thesis
    by (intro exI)
qed

theorem createProducts_serial_witness:
  "products scenario_catalog = [] \<and> length two_calls = 2 \<and> (2::nat) \<le> 2147483648 \<and>
   (\<exists>d' ps. createProducts scenario_catalog two_calls = Inr (d', ps) \<and>
      map p_id ps = [''prod_0001'', ''prod_0002''] \<and>
      map (\<lambda>p. decimal_value (drop 5 (p_id p))) ps = [1, 2])"
proof -
  have len: "length two_calls = 2"
    by (simp add: two_calls_def)
  have bound: "(2::nat) \<le> 2147483648"
    by simp
  have upt: "[1..<Suc 2] = [1, 2::nat]"
    by (simp add: upt_rec)
  have "formatProductId 1 = ''prod_0001''" "formatProductId 2 = ''prod_0002''"
    by (simp_all add: formatProductId_def padStart_def toString_def showNat.simps digit_char_def
        replicate_small)
  then have fmt: "map (\<lambda>j. formatProductId (int j)) [1..<Suc 2] = [''prod_0001'', ''prod_0002'']"
    unfolding upt by simp
  from createProducts_serial [OF scenario_empty len bound]
  have "\<exists>d' ps. createProducts scenario_catalog two_calls = Inr (d', ps) \<and>
      map p_id ps = [''prod_0001'', ''prod_0002''] \<and>
      map (\<lambda>p. decimal_value (drop 5 (p_id p))) ps = [1, 2]"
    unfolding fmt unfolding upt by (elim exE conjE, intro exI conjI)
  with scenario_empty len bound show ?thesis
    by blast
qed

text \<open>
  The claim as stated, for every \<open>N\<close>, fails: after 2147483648 creations the store holds
  \<^verbatim>\<open>prod_2147483648\<close>, whose suffix \<^verbatim>\<open>$toInt\<close> cannot convert to a 32-bit integer, so
  call 2147483649 ends in the conversion error of the aggregation.
\<close>

theorem createProducts_serial_counterexample:
  "products scenario_catalog = [] \<and>
   length (replicate 2147483649 (widget_form, [''u1''], 100 :: int, 101 :: int, 102 :: int, 103 :: int))
     = 2147483649 \<and>
   createProducts scenario_catalog
     (replicate 2147483649 (widget_form, [''u1''], 100, 101, 102, 103)) = Inl ConversionFailure"
proof -
  let ?c = "(widget_form, [''u1''], 100 :: int, 101 :: int, 102 :: int, 103 :: int)"
  have split: "replicate (Suc n) ?c = replicate n ?c @ [?c]" for n
    by (simp only: replicate_Suc replicate_append_same)
  have "(2147483649::nat) = Suc 2147483648"
    by simp
  then have rep: "replicate 2147483649 ?c = replicate 2147483648 ?c @ [?c]"
    by (simp only: split)
  have "createProducts scenario_catalog (replicate 2147483648 ?c @ [?c]) = Inl ConversionFailure"
    by (rule createProducts_overflow [OF scenario_empty]) simp_all
  then have "createProducts scenario_catalog (replicate 2147483649 ?c) = Inl ConversionFailure"
    by (simp only: rep)
  with scenario_empty show ?thesis
    by (simp only: length_replicate simp_thms)
qed

subsection \<open>C3: the next identifier\<close>

text \<open>
  C3, as amended. Let every key of the product collection that starts with \<^verbatim>\<open>prod_\<close>
  continue with a non-empty run of decimal digits of value at most 2147483647. Then
  \<^verbatim>\<open>getNextProductId\<close> returns what the specification's allocator computes from the keys:
  the maximum numeric suffix (0 if there is none) plus 1, zero-padded to four digits after
  \<^verbatim>\<open>prod_\<close>. The result is a function of the current keys alone: two stores with the
  same keys get the same identifier, and no counter is kept.
\<close>

theorem getNextProductId_spec:
  assumes "\<forall>k \<in> set (map p_id (products d)).
      match_prod k \<longrightarrow> all_digits (drop 5 k) \<and> decimal_value (drop 5 k) \<le> 2147483647"
  shows "getNextProductId d = Inr (spec_allocate_next_product_id (map p_id (products d))) \<and>
    (\<forall>d'. map p_id (products d') = map p_id (products d) \<longrightarrow>
       getNextProductId d' = getNextProductId d)"
proof
  have "filter matches_prod_digits (map p_id (products d)) = filter match_prod (map p_id (products d))"
    using assms by (intro filter_spec_pattern) auto
  then show "getNextProductId d = Inr (spec_allocate_next_product_id (map p_id (products d)))"
    unfolding getNextProductId_allocates [OF assms]
    by (simp add: spec_allocate_next_product_id_def Let_def formatProductId_nat del: of_nat_add of_nat_Suc)
  show "\<forall>d'. map p_id (products d') = map p_id (products d) \<longrightarrow>
       getNextProductId d' = getNextProductId d"
    by (simp add: getNextProductId_def aggregate_pipeline_def)
qed

theorem getNextProductId_spec_witness:
  "getNextProductId mixed_catalog
     = Inr (spec_allocate_next_product_id [''prod_0001'', ''legacy-7'', ''prod_0012'']) \<and>
   spec_allocate_next_product_id [''prod_0001'', ''legacy-7'', ''prod_0012''] = ''prod_0013''"
proof -
  have ids: "map p_id (products mixed_catalog) = [''prod_0001'', ''legacy-7'', ''prod_0012'']"
    by (simp add: mixed_catalog_def widget_def)
  have "\<forall>k \<in> set (map p_id (products mixed_catalog)).
      match_prod k \<longrightarrow> all_digits (drop 5 k) \<and> decimal_value (drop 5 k) \<le> 2147483647"
    unfolding ids by (simp add: match_prod_def decimal_eval)
  from getNextProductId_spec [OF this]
  have "getNextProductId mixed_catalog
     = Inr (spec_allocate_next_product_id [''prod_0001'', ''legacy-7'', ''prod_0012''])"
    unfolding ids by (rule conjunct1)
  moreover have "spec_allocate_next_product_id [''prod_0001'', ''legacy-7'', ''prod_0012'']
      = ''prod_0013''"
    by (simp add: spec_allocate_next_product_id_def matches_prod_digits_def decimal_eval
        showNat.simps digit_char_def replicate_small)
  ultimately show ?thesis
    by (rule conjI)
qed

text \<open>
  The claim as stated, for every state, fails: the pipeline matches \<^verbatim>\<open>^prod_\<close>, not
  \<^verbatim>\<open>prod_<digits>\<close>, and \<^verbatim>\<open>$toInt\<close> fails on \<^verbatim>\<open>abc\<close>. With the key
  \<^verbatim>\<open>prod_abc\<close> in the store the call ends in an error, where the claim promises
  \<^verbatim>\<open>prod_0001\<close>.
\<close>

theorem getNextProductId_spec_counterexample:
  "getNextProductId malformed_catalog = Inl ConversionFailure \<and>
   map p_id (products malformed_catalog) = [''prod_abc''] \<and>
   spec_allocate_next_product_id [''prod_abc''] = ''prod_0001''"
proof (intro conjI)
  show "getNextProductId malformed_catalog = Inl ConversionFailure"
    by (simp add: getNextProductId_def aggregate_pipeline_def malformed_catalog_def widget_def
        match_prod_def toInt_def all_digits_def is_digit_def)
  show "map p_id (products malformed_catalog) = [''prod_abc'']"
    by (simp add: malformed_catalog_def)
  show "spec_allocate_next_product_id [''prod_abc''] = ''prod_0001''"
    by (simp add: spec_allocate_next_product_id_def matches_prod_digits_def all_digits_def
        is_digit_def showNat.simps digit_char_def replicate_small)
qed

subsection \<open>C4: deletion\<close>

text \<open>
  C4. \<^verbatim>\<open>deleteProduct\<close> leaves the whole state as it is when no product has the
  identifier. When the product exists, its record is removed from the collection (and with
  unique keys no lookup finds the identifier any more); the category the record names, when
  it exists, loses every occurrence of the identifier in its list and its count goes down
  by 1; the same holds for the subcategory.
\<close>

theorem deleteProduct_effect:
  "(getProductById d productId = None \<longrightarrow> deleteProduct d productId t1 t2 = d) \<and>
   (getProductById d productId = Some p \<longrightarrow>
      products (deleteProduct d productId t1 t2)
        = deleteOne (\<lambda>q. p_id q = productId) (products d) \<and>
      add_mset p (mset (products (deleteProduct d productId t1 t2))) = mset (products d) \<and>
      (distinct (map p_id (products d)) \<longrightarrow>
         getProductById (deleteProduct d productId t1 t2) productId = None) \<and>
      (findOne (\<lambda>c. c_id c = category_id p) (categories d) = Some c \<longrightarrow>
         (\<exists>c'. findOne (\<lambda>c. c_id c = category_id p) (categories (deleteProduct d productId t1 t2))
                = Some c' \<and>
            product_ids c' = removeAll productId (product_ids c) \<and>
            productId \<notin> set (product_ids c') \<and>
            product_count c' = product_count c - 1)) \<and>
      (findOne (\<lambda>s. c_id s = subcategory_id p) (subcategories d) = Some s \<longrightarrow>
         (\<exists>s'. findOne (\<lambda>s. c_id s = subcategory_id p)
                  (subcategories (deleteProduct d productId t1 t2)) = Some s' \<and>
            product_ids s' = removeAll productId (product_ids s) \<and>
            productId \<notin> set (product_ids s') \<and>
            product_count s' = product_count s - 1)))"
proof (intro conjI impI)
  assume "getProductById d productId = None"
  then show "deleteProduct d productId t1 t2 = d"
    by (rule deleteProduct_absent)
next
  assume a: "getProductById d productId = Some p"
  show "products (deleteProduct d productId t1 t2)
        = deleteOne (\<lambda>q. p_id q = productId) (products d)"
    by (rule deleteProduct_present(1) [OF a])
  show "add_mset p (mset (products (deleteProduct d productId t1 t2))) = mset (products d)"
    using a by (simp add: deleteProduct_present(1) [OF a] getProductById_def mset_deleteOne)
  show "getProductById (deleteProduct d productId t1 t2) productId = None"
    if "distinct (map p_id (products d))"
    using that
    by (simp add: getProductById_def deleteProduct_present(1) [OF a] findOne_deleteOne_distinct)
  show "\<exists>c'. findOne (\<lambda>c. c_id c = category_id p) (categories (deleteProduct d productId t1 t2))
                = Some c' \<and>
            product_ids c' = removeAll productId (product_ids c) \<and>
            productId \<notin> set (product_ids c') \<and>
            product_count c' = product_count c - 1"
    if "findOne (\<lambda>c. c_id c = category_id p) (categories d) = Some c"
    using findOne_pulled [OF that, of productId t1]
    by (simp add: deleteProduct_present(2) [OF a] pull_product_def)
  show "\<exists>s'. findOne (\<lambda>s. c_id s = subcategory_id p)
                  (subcategories (deleteProduct d productId t1 t2)) = Some s' \<and>
            product_ids s' = removeAll productId (product_ids s) \<and>
            productId \<notin> set (product_ids s') \<and>
            product_count s' = product_count s - 1"
    if "findOne (\<lambda>s. c_id s = subcategory_id p) (subcategories d) = Some s"
    using findOne_pulled [OF that, of productId t2]
    by (simp add: deleteProduct_present(3) [OF a] pull_product_def)
qed

theorem deleteProduct_effect_witness:
  "getProductById widget_catalog ''prod_0002'' = None \<and>
   deleteProduct widget_catalog ''prod_0002'' 300 301 = widget_catalog \<and>
   getProductById widget_catalog ''prod_0001'' = Some widget \<and>
   distinct (map p_id (products widget_catalog)) \<and>
   getProductById (deleteProduct widget_catalog ''prod_0001'' 300 301) ''prod_0001'' = None \<and>
   (\<exists>c'. findOne (\<lambda>c. c_id c = ''C1'') (categories (deleteProduct widget_catalog ''prod_0001'' 300 301))
        = Some c' \<and> product_ids c' = [] \<and> product_count c' = 0) \<and>
   (\<exists>s'. findOne (\<lambda>s. c_id s = ''S1'')
          (subcategories (deleteProduct widget_catalog ''prod_0001'' 300 301))
        = Some s' \<and> product_ids s' = [] \<and> product_count s' = 0)"
proof -
  have dist: "distinct (map p_id (products widget_catalog))"
    by (simp add: widget_catalog_def)
  let ?c = "\<lparr>c_id = ''C1'', c_name = ''Tools'', product_ids = [''prod_0001''], product_count = 1,
          c_updated_at = 102\<rparr>"
  let ?s = "\<lparr>c_id = ''S1'', c_name = ''Hand tools'', product_ids = [''prod_0001''],
          product_count = 1, c_updated_at = 103, s_category_id = ''C1''\<rparr>"
  note absent = deleteProduct_effect [THEN conjunct1, THEN mp, OF widget_absent]
  note present = deleteProduct_effect [THEN conjunct2, THEN mp, OF widget_lookup,
      of 300 301 ?c ?s]
  have gone: "getProductById (deleteProduct widget_catalog ''prod_0001'' 300 301) ''prod_0001'' = None"
    using present dist by blast
  have cat: "\<exists>c'. findOne (\<lambda>c. c_id c = ''C1'')
        (categories (deleteProduct widget_catalog ''prod_0001'' 300 301))
        = Some c' \<and> product_ids c' = [] \<and> product_count c' = 0"
    using present widget_category
    by (auto simp: widget_def)
  have sub: "\<exists>s'. findOne (\<lambda>s. c_id s = ''S1'')
          (subcategories (deleteProduct widget_catalog ''prod_0001'' 300 301))
        = Some s' \<and> product_ids s' = [] \<and> product_count s' = 0"
    using present widget_subcategory
    by (auto simp: widget_def)
  from widget_absent absent widget_lookup dist gone cat sub show ?thesis
    by blast
qed

subsection \<open>C5: update leaves the parents alone\<close>

text \<open>
  C5, as amended. For an existing product and an update that supplies no \<^verbatim>\<open>_id\<close>, or
  supplies the product's own, \<^verbatim>\<open>updateProduct\<close> succeeds: it replaces each supplied field,
  keeps each field that is not supplied, sets \<open>updated_at\<close> to the clock's reading, and
  changes no category and no subcategory document, also when the update supplies
  \<open>category_id\<close> or \<open>subcategory_id\<close>. An update that supplies another \<^verbatim>\<open>_id\<close> is
  refused by the store with an error, and nothing is written.
\<close>

theorem updateProduct_frame:
  assumes "getProductById d productId = Some p"
  shows "(u_id updateData = None \<or> u_id updateData = Some productId \<longrightarrow>
      (\<exists>d' p'. updateProduct d productId updateData now = Inr d' \<and>
       categories d' = categories d \<and>
       subcategories d' = subcategories d \<and>
       getProductById d' productId = Some p' \<and>
       updated_at p' = now \<and>
       p_id p' = p_id p \<and>
       product_id p' = (case u_product_id updateData of Some v \<Rightarrow> v | None \<Rightarrow> product_id p) \<and>
       product_name p' = (case u_product_name updateData of Some v \<Rightarrow> v | None \<Rightarrow> product_name p) \<and>
       product_title p' = (case u_product_title updateData of Some v \<Rightarrow> v | None \<Rightarrow> product_title p) \<and>
       product_description p' =
         (case u_product_description updateData of Some v \<Rightarrow> v | None \<Rightarrow> product_description p) \<and>
       image_urls p' = (case u_image_urls updateData of Some v \<Rightarrow> v | None \<Rightarrow> image_urls p) \<and>
       image_count p' = (case u_image_count updateData of Some v \<Rightarrow> v | None \<Rightarrow> image_count p) \<and>
       subcategory_id p' =
         (case u_subcategory_id updateData of Some v \<Rightarrow> v | None \<Rightarrow> subcategory_id p) \<and>
       category_id p' = (case u_category_id updateData of Some v \<Rightarrow> v | None \<Rightarrow> category_id p) \<and>
       status p' = (case u_status updateData of Some v \<Rightarrow> v | None \<Rightarrow> status p) \<and>
       created_at p' = (case u_created_at updateData of Some v \<Rightarrow> v | None \<Rightarrow> created_at p))) \<and>
    (\<forall>k. u_id updateData = Some k \<and> k \<noteq> productId \<longrightarrow>
       updateProduct d productId updateData now = Inl ImmutableField)"
proof (intro conjI impI allI)
  assume ok: "u_id updateData = None \<or> u_id updateData = Some productId"
  note acc = updateProduct_accepted [OF assms ok, of now]
  let ?d' = "d\<lparr>products :=
      updateOne (\<lambda>q. p_id q = productId) (set_fields updateData now) (products d)\<rparr>"
  let ?p' = "set_fields updateData now p"
  have "updateProduct d productId updateData now = Inr ?d' \<and>
       categories ?d' = categories d \<and>
       subcategories ?d' = subcategories d \<and>
       getProductById ?d' productId = Some ?p' \<and>
       updated_at ?p' = now \<and>
       p_id ?p' = p_id p \<and>
       product_id ?p' = (case u_product_id updateData of Some v \<Rightarrow> v | None \<Rightarrow> product_id p) \<and>
       product_name ?p' = (case u_product_name updateData of Some v \<Rightarrow> v | None \<Rightarrow> product_name p) \<and>
       product_title ?p' = (case u_product_title updateData of Some v \<Rightarrow> v | None \<Rightarrow> product_title p) \<and>
       product_description ?p' =
         (case u_product_description updateData of Some v \<Rightarrow> v | None \<Rightarrow> product_description p) \<and>
       image_urls ?p' = (case u_image_urls updateData of Some v \<Rightarrow> v | None \<Rightarrow> image_urls p) \<and>
       image_count ?p' = (case u_image_count updateData of Some v \<Rightarrow> v | None \<Rightarrow> image_count p) \<and>
       subcategory_id ?p' =
         (case u_subcategory_id updateData of Some v \<Rightarrow> v | None \<Rightarrow> subcategory_id p) \<and>
       category_id ?p' = (case u_category_id updateData of Some v \<Rightarrow> v | None \<Rightarrow> category_id p) \<and>
       status ?p' = (case u_status updateData of Some v \<Rightarrow> v | None \<Rightarrow> status p) \<and>
       created_at ?p' = (case u_created_at updateData of Some v \<Rightarrow> v | None \<Rightarrow> created_at p)"
    by (simp add: acc set_fields_sel)
  then show "\<exists>d' p'. updateProduct d productId updateData now = Inr d' \<and>
       categories d' = categories d \<and>
       subcategories d' = subcategories d \<and>
       getProductById d' productId = Some p' \<and>
       updated_at p' = now \<and>
       p_id p' = p_id p \<and>
       product_id p' = (case u_product_id updateData of Some v \<Rightarrow> v | None \<Rightarrow> product_id p) \<and>
       product_name p' = (case u_product_name updateData of Some v \<Rightarrow> v | None \<Rightarrow> product_name p) \<and>
       product_title p' = (case u_product_title updateData of Some v \<Rightarrow> v | None \<Rightarrow> product_title p) \<and>
       product_description p' =
         (case u_product_description updateData of Some v \<Rightarrow> v | None \<Rightarrow> product_description p) \<and>
       image_urls p' = (case u_image_urls updateData of Some v \<Rightarrow> v | None \<Rightarrow> image_urls p) \<and>
       image_count p' = (case u_image_count updateData of Some v \<Rightarrow> v | None \<Rightarrow> image_count p) \<and>
       subcategory_id p' =
         (case u_subcategory_id updateData of Some v \<Rightarrow> v | None \<Rightarrow> subcategory_id p) \<and>
       category_id p' = (case u_category_id updateData of Some v \<Rightarrow> v | None \<Rightarrow> category_id p) \<and>
       status p' = (case u_status updateData of Some v \<Rightarrow> v | None \<Rightarrow> status p) \<and>
       created_at p' = (case u_created_at updateData of Some v \<Rightarrow> v | None \<Rightarrow> created_at p)"
    by (intro exI)
next
  fix k
  assume "u_id updateData = Some k \<and> k \<noteq> productId"
  then show "updateProduct d productId updateData now = Inl ImmutableField"
    using updateProduct_rejected [OF assms] by blast
qed

theorem updateProduct_frame_witness:
  "getProductById widget_catalog ''prod_0001'' = Some widget \<and>
   u_id (no_fields\<lparr>u_category_id := Some ''C2'', u_subcategory_id := Some ''S2''\<rparr>) = None \<and>
   (\<exists>d' p'. updateProduct widget_catalog ''prod_0001''
       (no_fields\<lparr>u_category_id := Some ''C2'', u_subcategory_id := Some ''S2''\<rparr>) 200 = Inr d' \<and>
      categories d' = categories widget_catalog \<and>
      subcategories d' = subcategories widget_catalog \<and>
      getProductById d' ''prod_0001'' = Some p' \<and>
      category_id p' = ''C2'' \<and> subcategory_id p' = ''S2'' \<and> updated_at p' = 200 \<and>
      product_name p' = ''Widget'') \<and>
   u_id (no_fields\<lparr>u_id := Some ''prod_0002''\<rparr>) = Some ''prod_0002'' \<and>
   updateProduct widget_catalog ''prod_0001'' (no_fields\<lparr>u_id := Some ''prod_0002''\<rparr>) 200
     = Inl ImmutableField"
proof -
  let ?u = "no_fields\<lparr>u_category_id := Some ''C2'', u_subcategory_id := Some ''S2''\<rparr>"
  let ?v = "no_fields\<lparr>u_id := Some ''prod_0002''\<rparr>"
  have none: "u_id ?u = None" and other: "u_id ?v = Some ''prod_0002''"
    by (simp_all add: no_fields_def)
  have "\<exists>d' p'. updateProduct widget_catalog ''prod_0001'' ?u 200 = Inr d' \<and>
      categories d' = categories widget_catalog \<and>
      subcategories d' = subcategories widget_catalog \<and>
      getProductById d' ''prod_0001'' = Some p' \<and>
      category_id p' = ''C2'' \<and> subcategory_id p' = ''S2'' \<and> updated_at p' = 200 \<and>
      product_name p' = ''Widget''"
    using updateProduct_frame [OF widget_lookup, of ?u 200, THEN conjunct1] none
    by (auto simp: no_fields_def widget_def)
  moreover have "updateProduct widget_catalog ''prod_0001'' ?v 200 = Inl ImmutableField"
    using updateProduct_frame [OF widget_lookup, of ?v 200, THEN conjunct2] other
    by auto
  ultimately show ?thesis
    using widget_lookup none other by blast
qed

text \<open>
  The claim as stated, for every partial-field map, fails: an update that supplies a new
  name together with another \<^verbatim>\<open>_id\<close> ends in the store's error; the name is not merged
  and \<open>updated_at\<close> is not set.
\<close>

theorem updateProduct_frame_counterexample:
  "getProductById widget_catalog ''prod_0001'' = Some widget \<and>
   updateProduct widget_catalog ''prod_0001''
     (no_fields\<lparr>u_id := Some ''prod_0002'', u_product_name := Some ''Gadget''\<rparr>) 200
     = Inl ImmutableField"
  by (simp add: getProductById_def updateProduct_def changes_key_def no_fields_def
      widget_catalog_def widget_def)

subsection \<open>C6: update, the identifier and the creation date\<close>

text \<open>
  C6, as amended. No update changes the key \<^verbatim>\<open>_id\<close> of an existing product: an update
  that supplies another \<^verbatim>\<open>_id\<close> is refused by the store and nothing is written. Every
  other update succeeds, and after it \<open>product_id\<close> and \<open>created_at\<close> keep their values
  when the update does not supply them and take the supplied values when it does.
\<close>

theorem updateProduct_identity:
  assumes "getProductById d productId = Some p"
  shows "(u_id updateData = None \<or> u_id updateData = Some productId \<longrightarrow>
      (\<exists>d' p'. updateProduct d productId updateData now = Inr d' \<and>
         getProductById d' productId = Some p' \<and>
         p_id p' = p_id p \<and>
         product_id p' = (case u_product_id updateData of Some v \<Rightarrow> v | None \<Rightarrow> product_id p) \<and>
         created_at p' = (case u_created_at updateData of Some v \<Rightarrow> v | None \<Rightarrow> created_at p))) \<and>
    (\<forall>k. u_id updateData = Some k \<and> k \<noteq> productId \<longrightarrow>
       updateProduct d productId updateData now = Inl ImmutableField)"
proof (intro conjI impI allI)
  assume ok: "u_id updateData = None \<or> u_id updateData = Some productId"
  note acc = updateProduct_accepted [OF assms ok, of now]
  let ?d' = "d\<lparr>products :=
      updateOne (\<lambda>q. p_id q = productId) (set_fields updateData now) (products d)\<rparr>"
  let ?p' = "set_fields updateData now p"
  have "updateProduct d productId updateData now = Inr ?d' \<and>
         getProductById ?d' productId = Some ?p' \<and>
         p_id ?p' = p_id p \<and>
         product_id ?p' = (case u_product_id updateData of Some v \<Rightarrow> v | None \<Rightarrow> product_id p) \<and>
         created_at ?p' = (case u_created_at updateData of Some v \<Rightarrow> v | None \<Rightarrow> created_at p)"
    by (simp only: acc set_fields_sel simp_thms)
  then show "\<exists>d' p'. updateProduct d productId updateData now = Inr d' \<and>
         getProductById d' productId = Some p' \<and>
         p_id p' = p_id p \<and>
         product_id p' = (case u_product_id updateData of Some v \<Rightarrow> v | None \<Rightarrow> product_id p) \<and>
         created_at p' = (case u_created_at updateData of Some v \<Rightarrow> v | None \<Rightarrow> created_at p)"
    by (intro exI)
next
  fix k
  assume "u_id updateData = Some k \<and> k \<noteq> productId"
  then show "updateProduct d productId updateData now = Inl ImmutableField"
    using updateProduct_rejected [OF assms] by blast
qed

theorem updateProduct_identity_witness:
  "getProductById widget_catalog ''prod_0001'' = Some widget \<and>
   u_id (no_fields\<lparr>u_id := Some ''prod_0001'', u_product_name := Some ''Gadget''\<rparr>)
     = Some ''prod_0001'' \<and>
   (\<exists>d' p'. updateProduct widget_catalog ''prod_0001''
        (no_fields\<lparr>u_id := Some ''prod_0001'', u_product_name := Some ''Gadget''\<rparr>) 200 = Inr d' \<and>
      getProductById d' ''prod_0001'' = Some p' \<and>
      p_id p' = ''prod_0001'' \<and> product_id p' = ''prod_0001'' \<and> created_at p' = 100) \<and>
   u_id (no_fields\<lparr>u_id := Some ''prod_0002'', u_product_id := Some ''prod_0002''\<rparr>)
     = Some ''prod_0002'' \<and>
   updateProduct widget_catalog ''prod_0001''
       (no_fields\<lparr>u_id := Some ''prod_0002'', u_product_id := Some ''prod_0002''\<rparr>) 200
     = Inl ImmutableField"
proof -
  let ?u = "no_fields\<lparr>u_id := Some ''prod_0001'', u_product_name := Some ''Gadget''\<rparr>"
  let ?v = "no_fields\<lparr>u_id := Some ''prod_0002'', u_product_id := Some ''prod_0002''\<rparr>"
  have same: "u_id ?u = Some ''prod_0001''" and other: "u_id ?v = Some ''prod_0002''"
    by (simp_all add: no_fields_def)
  have "\<exists>d' p'. updateProduct widget_catalog ''prod_0001'' ?u 200 = Inr d' \<and>
      getProductById d' ''prod_0001'' = Some p' \<and>
      p_id p' = ''prod_0001'' \<and> product_id p' = ''prod_0001'' \<and> created_at p' = 100"
    using updateProduct_identity [OF widget_lookup, of ?u 200, THEN conjunct1] same
    by (auto simp: no_fields_def widget_def)
  moreover have "updateProduct widget_catalog ''prod_0001'' ?v 200 = Inl ImmutableField"
    using updateProduct_identity [OF widget_lookup, of ?v 200, THEN conjunct2] other
    by auto
  ultimately show ?thesis
    using widget_lookup same other by blast
qed

text \<open>
  The claim as stated fails: an update that supplies \<open>product_id\<close> and \<open>created_at\<close>
  rewrites both.
\<close>

theorem updateProduct_identity_counterexample:
  "getProductById widget_catalog ''prod_0001'' = Some widget \<and>
   updateProduct widget_catalog ''prod_0001''
        (no_fields\<lparr>u_product_id := Some ''prod_9999'', u_created_at := Some 0\<rparr>) 200
     = Inr (widget_catalog\<lparr>products :=
         [widget\<lparr>product_id := ''prod_9999'', created_at := 0, updated_at := 200\<rparr>]\<rparr>) \<and>
   getProductById (widget_catalog\<lparr>products :=
         [widget\<lparr>product_id := ''prod_9999'', created_at := 0, updated_at := 200\<rparr>]\<rparr>) ''prod_0001''
     = Some (widget\<lparr>product_id := ''prod_9999'', created_at := 0, updated_at := 200\<rparr>) \<and>
   product_id (widget\<lparr>product_id := ''prod_9999'', created_at := 0, updated_at := 200\<rparr>)
     \<noteq> product_id widget \<and>
   created_at (widget\<lparr>product_id := ''prod_9999'', created_at := 0, updated_at := 200\<rparr>)
     \<noteq> created_at widget"
  by (simp add: widget_lookup getProductById_def updateProduct_def changes_key_def set_fields_def
      no_fields_def widget_catalog_def widget_def)

subsection \<open>C7: the image count\<close>

text \<open>
  C7, as amended. The product a successful \<^verbatim>\<open>createProduct\<close> returns is the one the
  store holds under its key, and its \<open>image_count\<close> is the length of its \<open>image_urls\<close>.
  An update of an existing product that supplies no \<^verbatim>\<open>_id\<close>, or the product's own,
  succeeds, and after it \<open>image_urls\<close> and \<open>image_count\<close> are each the supplied value, or
  the old one when none is supplied; so the count is the length of the list when the update
  supplies both in agreement, or supplies neither for a product where they agreed. An update
  that supplies another \<^verbatim>\<open>_id\<close> is refused by the store and nothing is written.
\<close>

theorem image_count_consistency:
  "(createProduct d productData imageUrls t1 t2 t3 t4 = Inr (d', p) \<longrightarrow>
      getProductById d' (p_id p) = Some p \<and> image_urls p = imageUrls \<and>
      image_count p = int (length (image_urls p))) \<and>
   (getProductById d productId = Some q \<and>
    (u_id updateData = None \<or> u_id updateData = Some productId) \<longrightarrow>
      (\<exists>e q'. updateProduct d productId updateData now = Inr e \<and>
         getProductById e productId = Some q' \<and>
         image_urls q' = (case u_image_urls updateData of Some v \<Rightarrow> v | None \<Rightarrow> image_urls q) \<and>
         image_count q' = (case u_image_count updateData of Some v \<Rightarrow> v | None \<Rightarrow> image_count q) \<and>
         (u_image_urls updateData = Some urls \<and> u_image_count updateData = Some (int (length urls))
            \<longrightarrow> image_count q' = int (length (image_urls q'))) \<and>
         (u_image_urls updateData = None \<and> u_image_count updateData = None \<and>
          image_count q = int (length (image_urls q))
            \<longrightarrow> image_count q' = int (length (image_urls q'))))) \<and>
   (getProductById d productId = Some q \<and> u_id updateData = Some k \<and> k \<noteq> productId \<longrightarrow>
      updateProduct d productId updateData now = Inl ImmutableField)"
proof (intro conjI impI)
  assume a: "createProduct d productData imageUrls t1 t2 t3 t4 = Inr (d', p)"
  show "getProductById d' (p_id p) = Some p"
    by (rule getProductById_created [OF a])
  show "image_urls p = imageUrls"
    by (rule createProduct_Inr(7) [OF a])
  show "image_count p = int (length (image_urls p))"
    by (simp add: createProduct_Inr(7,8) [OF a])
next
  assume "getProductById d productId = Some q \<and>
    (u_id updateData = None \<or> u_id updateData = Some productId)"
  then have q: "getProductById d productId = Some q"
    and ok: "u_id updateData = None \<or> u_id updateData = Some productId"
    by simp_all
  note acc = updateProduct_accepted [OF q ok, of now]
  let ?e = "d\<lparr>products :=
      updateOne (\<lambda>q. p_id q = productId) (set_fields updateData now) (products d)\<rparr>"
  let ?q' = "set_fields updateData now q"
  have "updateProduct d productId updateData now = Inr ?e \<and>
         getProductById ?e productId = Some ?q' \<and>
         image_urls ?q' = (case u_image_urls updateData of Some v \<Rightarrow> v | None \<Rightarrow> image_urls q) \<and>
         image_count ?q' = (case u_image_count updateData of Some v \<Rightarrow> v | None \<Rightarrow> image_count q) \<and>
         (u_image_urls updateData = Some urls \<and> u_image_count updateData = Some (int (length urls))
            \<longrightarrow> image_count ?q' = int (length (image_urls ?q'))) \<and>
         (u_image_urls updateData = None \<and> u_image_count updateData = None \<and>
          image_count q = int (length (image_urls q))
            \<longrightarrow> image_count ?q' = int (length (image_urls ?q')))"
    by (simp add: acc set_fields_sel)
  then show "\<exists>e q'. updateProduct d productId updateData now = Inr e \<and>
         getProductById e productId = Some q' \<and>
         image_urls q' = (case u_image_urls updateData of Some v \<Rightarrow> v | None \<Rightarrow> image_urls q) \<and>
         image_count q' = (case u_image_count updateData of Some v \<Rightarrow> v | None \<Rightarrow> image_count q) \<and>
         (u_image_urls updateData = Some urls \<and> u_image_count updateData = Some (int (length urls))
            \<longrightarrow> image_count q' = int (length (image_urls q'))) \<and>
         (u_image_urls updateData = None \<and> u_image_count updateData = None \<and>
          image_count q = int (length (image_urls q))
            \<longrightarrow> image_count q' = int (length (image_urls q')))"
    by (intro exI)
next
  assume "getProductById d productId = Some q \<and> u_id updateData = Some k \<and> k \<noteq> productId"
  then show "updateProduct d productId updateData now = Inl ImmutableField"
    using updateProduct_rejected by blast
qed

theorem image_count_consistency_witness:
  "createProduct scenario_catalog widget_form [''u1'', ''u2''] 100 101 102 103
     = Inr (widget_catalog, widget) \<and>
   getProductById widget_catalog ''prod_0001'' = Some widget \<and>
   image_count widget = int (length (image_urls widget)) \<and>
   u_id (no_fields\<lparr>u_image_urls := Some [''u3''], u_image_count := Some 1\<rparr>) = None \<and>
   u_image_urls (no_fields\<lparr>u_image_urls := Some [''u3''], u_image_count := Some 1\<rparr>) = Some [''u3''] \<and>
   u_image_count (no_fields\<lparr>u_image_urls := Some [''u3''], u_image_count := Some 1\<rparr>)
     = Some (int (length [''u3''])) \<and>
   (\<exists>e q'. updateProduct widget_catalog ''prod_0001''
        (no_fields\<lparr>u_image_urls := Some [''u3''], u_image_count := Some 1\<rparr>) 200 = Inr e \<and>
      getProductById e ''prod_0001'' = Some q' \<and>
      image_urls q' = [''u3''] \<and> image_count q' = 1 \<and>
      image_count q' = int (length (image_urls q'))) \<and>
   updateProduct widget_catalog ''prod_0001''
       (no_fields\<lparr>u_id := Some ''prod_0002'', u_image_urls := Some [''u3'']\<rparr>) 200
     = Inl ImmutableField"
proof -
  let ?u = "no_fields\<lparr>u_image_urls := Some [''u3''], u_image_count := Some 1\<rparr>"
  let ?v = "no_fields\<lparr>u_id := Some ''prod_0002'', u_image_urls := Some [''u3'']\<rparr>"
  have created: "image_count widget = int (length (image_urls widget))"
    using image_count_consistency [THEN conjunct1, THEN mp, OF scenario_create]
    by simp
  have supplied: "u_id ?u = None" "u_image_urls ?u = Some [''u3'']"
    "u_image_count ?u = Some (int (length [''u3'']))"
    by (simp_all add: no_fields_def)
  have other: "u_id ?v = Some ''prod_0002''"
    by (simp add: no_fields_def)
  have "\<exists>e q'. updateProduct widget_catalog ''prod_0001'' ?u 200 = Inr e \<and>
      getProductById e ''prod_0001'' = Some q' \<and>
      image_urls q' = [''u3''] \<and> image_count q' = 1 \<and>
      image_count q' = int (length (image_urls q'))"
    using image_count_consistency [where d = widget_catalog and productId = "''prod_0001''"
        and q = widget and updateData = ?u and now = 200 and urls = "[''u3'']",
        THEN conjunct2, THEN conjunct1] widget_lookup supplied
    by auto
  moreover have "updateProduct widget_catalog ''prod_0001'' ?v 200 = Inl ImmutableField"
    using image_count_consistency [where d = widget_catalog and productId = "''prod_0001''"
        and q = widget and updateData = ?v and now = 200 and k = "''prod_0002''",
        THEN conjunct2, THEN conjunct2] widget_lookup other
    by auto
  ultimately show ?thesis
    using scenario_create widget_lookup created supplied by blast
qed

text \<open>
  The claim as stated fails: an update that supplies only new \<open>image_urls\<close> succeeds and
  leaves the old \<open>image_count\<close>.
\<close>

theorem image_count_counterexample:
  "getProductById widget_catalog ''prod_0001'' = Some widget \<and>
   updateProduct widget_catalog ''prod_0001'' (no_fields\<lparr>u_image_urls := Some [''u3'']\<rparr>) 200
     = Inr (widget_catalog\<lparr>products := [widget\<lparr>image_urls := [''u3''], updated_at := 200\<rparr>]\<rparr>) \<and>
   getProductById
       (widget_catalog\<lparr>products := [widget\<lparr>image_urls := [''u3''], updated_at := 200\<rparr>]\<rparr>)
       ''prod_0001''
     = Some (widget\<lparr>image_urls := [''u3''], updated_at := 200\<rparr>) \<and>
   image_count (widget\<lparr>image_urls := [''u3''], updated_at := 200\<rparr>) = 2 \<and>
   int (length (image_urls (widget\<lparr>image_urls := [''u3''], updated_at := 200\<rparr>))) = 1"
  by (simp add: widget_lookup getProductById_def updateProduct_def changes_key_def set_fields_def
      no_fields_def widget_catalog_def widget_def)

subsection \<open>C8: the list of products\<close>

text \<open>
  C8. \<^verbatim>\<open>getAllProducts\<close> returns exactly the documents of the collection (as a
  multiset), ordered by \<open>created_at\<close> descending. It is a read: the model takes the store
  and gives back the list only.
\<close>

theorem getAllProducts_sorted:
  "mset (getAllProducts d) = mset (products d) \<and>
   set (getAllProducts d) = set (products d) \<and>
   length (getAllProducts d) = length (products d) \<and>
   sorted_wrt (\<lambda>p q. created_at q \<le> created_at p) (getAllProducts d)"
proof -
  have "sorted (map (\<lambda>p. - created_at p) (getAllProducts d))"
    by (simp add: getAllProducts_def)
  then have "sorted_wrt (\<lambda>p q. created_at q \<le> created_at p) (getAllProducts d)"
    by (simp add: sorted_map)
  then show ?thesis
    by (simp add: getAllProducts_def)
qed

subsection \<open>C9: more than four digits\<close>

text \<open>
  C9. When the pipeline succeeds and the number computed from its result exceeds 9999,
  \<^verbatim>\<open>getNextProductId\<close> returns \<^verbatim>\<open>prod_\<close> followed by the whole decimal numeral of
  that number: the suffix has more than four characters, all of them digits, and its value is
  the number.
\<close>

theorem getNextProductId_widens:
  assumes "aggregate_pipeline (products d) = Inr result"
    and "nextNum = (case result of [] \<Rightarrow> 1 | numeric_part # _ \<Rightarrow> numeric_part + 1)"
    and "9999 < nextNum"
  shows "getNextProductId d = Inr (''prod_'' @ toString nextNum) \<and>
    all_digits (toString nextNum) \<and>
    int (decimal_value (toString nextNum)) = nextNum \<and>
    4 < length (toString nextNum)"
proof -
  have str: "toString nextNum = showNat (nat nextNum)"
    using assms(3) by (simp add: toString_def)
  have "10 ^ 4 \<le> nat nextNum"
    using assms(3) by simp
  then have len: "4 < length (toString nextNum)"
    unfolding str by (rule length_showNat_lower)
  then have "formatProductId nextNum = ''prod_'' @ toString nextNum"
    by (simp add: formatProductId_def padStart_def)
  then have "getNextProductId d = Inr (''prod_'' @ toString nextNum)"
    by (simp add: getNextProductId_def assms(1,2))
  moreover have "all_digits (toString nextNum)"
    unfolding str by (rule showNat_all_digits)
  moreover have "int (decimal_value (toString nextNum)) = nextNum"
    unfolding str using assms(3) by (simp add: decimal_value_showNat)
  ultimately show ?thesis
    using len by simp
qed

theorem getNextProductId_widens_witness:
  "aggregate_pipeline (products full_catalog) = Inr [9999] \<and>
   (9999::int) < 9999 + 1 \<and>
   getNextProductId full_catalog = Inr ''prod_10000''"
proof -
  have n: "(9999 + 1 :: int) = (case [9999] of [] \<Rightarrow> 1 | numeric_part # _ \<Rightarrow> numeric_part + 1)"
    by simp
  have gt: "(9999::int) < 9999 + 1"
    by simp
  have "toString (9999 + 1) = ''10000''"
    by (simp add: toString_def showNat.simps digit_char_def)
  with getNextProductId_widens [OF full_pipeline n gt]
  have "getNextProductId full_catalog = Inr ''prod_10000''"
    by simp
  with full_pipeline gt show ?thesis
    by simp
qed

subsection \<open>C10: deletion decrements unconditionally\<close>




end
